theory Spec2Isabelle
  imports Complex_Main "HOL-Library.Sublist" "HOL-Library.Multiset"
begin

section \<open>Data model\<close>

text \<open>
  A search result is a plain Python dict in \<^verbatim>\<open>src/handlers/rag_search.py\<close>. The code
  reads its keys with \<^verbatim>\<open>result["k"]\<close> (a missing key raises \<^verbatim>\<open>KeyError\<close>) and tests
  \<^verbatim>\<open>"content" in result\<close>, \<^verbatim>\<open>"uuid" in result\<close>, so every key is modelled as an optional
  field: \<open>None\<close> is "key absent". A present key holds a value of the type the code
  expects of it (a string, or a number for \<^verbatim>\<open>score\<close>). Strings are lists of characters,
  one list element per Python code point, so that \<open>length\<close> is Python's \<^verbatim>\<open>len\<close>
  (the alphabet is that of HOL's 8-bit characters); scores are reals (the code only
  compares them, NaN is not modelled). The dicts of one list are distinct objects.
\<close>

record result =
  title :: "string option"
  link :: "string option"
  snippet :: "string option"
  score :: "real option"
  content :: "string option"
  uuid :: "string option"

text \<open>The exceptions the modelled code can raise, each with its message text.\<close>

datatype error = KeyError string | TypeError string | Failure string

text \<open>
  A stage mutates the result dicts in place. Its outcome therefore carries the
  state of the caller's list in both cases: \<open>Returned rs\<close> is a normal return of
  the list \<open>rs\<close>; \<open>Raised e rs\<close> is an exception \<open>e\<close> leaving the stage while
  the caller's list (same dicts, same order) is in state \<open>rs\<close>.
\<close>

datatype outcome = Returned "result list" | Raised error "result list"

text \<open>
  A matched fragment as returned by \<^verbatim>\<open>query_results\<close>: the merge loop of
  \<^verbatim>\<open>filter_content\<close> reads the keys \<^verbatim>\<open>uuid\<close> and \<^verbatim>\<open>content\<close> of it.
\<close>

record match =
  match_uuid :: string
  match_content :: string

section \<open>SemanticFilter: \<^verbatim>\<open>filter_content\<close>\<close>

subsection \<open>Selection of the results to index (lines 213 to 220)\<close>

text \<open>
  \<^verbatim>\<open>if "content" in result and len(result["content"]) > len(result["snippet"])\<close>:
  the \<^verbatim>\<open>snippet\<close> key is read only when \<^verbatim>\<open>content\<close> is present, and raises
  \<^verbatim>\<open>KeyError\<close> when it is absent then.
\<close>

fun results_with_content :: "result list \<Rightarrow> error + result list" where
  "results_with_content [] = Inr []"
| "results_with_content (r # rs) =
     (case content r of
        None \<Rightarrow> results_with_content rs
      | Some c \<Rightarrow>
          (case snippet r of
             None \<Rightarrow> Inl (KeyError ''snippet'')
           | Some s \<Rightarrow>
               (case results_with_content rs of
                  Inl e \<Rightarrow> Inl e
                | Inr sel \<Rightarrow> Inr (if length c > length s then r # sel else sel))))"

subsection \<open>Merging the matched fragments by uuid (lines 233 to 243)\<close>

text \<open>
  One iteration of the loop over \<^verbatim>\<open>match_results\<close>: a uuid seen for the first time
  is entered with the empty string, a uuid seen before gets the fragment text
  appended.
\<close>

definition add_match :: "(string \<rightharpoonup> string) \<Rightarrow> match \<Rightarrow> (string \<rightharpoonup> string)" where
  "add_match cm m =
     (case cm (match_uuid m) of
        None \<Rightarrow> cm(match_uuid m \<mapsto> '''')
      | Some blob \<Rightarrow> cm(match_uuid m \<mapsto> blob @ match_content m))"

definition uuid_content_maps :: "match list \<Rightarrow> (string \<rightharpoonup> string)" where
  "uuid_content_maps ms = foldl add_match Map.empty ms"

text \<open>The fragment texts of one uuid, in retrieval order.\<close>

definition fragments_of :: "string \<Rightarrow> match list \<Rightarrow> string list" where
  "fragments_of u ms = map match_content (filter (\<lambda>m. match_uuid m = u) ms)"

subsection \<open>Building the documents: \<^verbatim>\<open>src/services/document/store.py\<close>\<close>

text \<open>
  The llama-index \<^verbatim>\<open>Document\<close> built from a result: its text, the four metadata
  entries and its \<^verbatim>\<open>doc_id\<close>.
\<close>

record document =
  doc_text :: string
  meta_uuid :: string
  meta_title :: string
  meta_snippet :: string
  meta_link :: string
  doc_id :: string

text \<open>
  The collaborators of the filter stage that are not part of the modelled source:
  \<^verbatim>\<open>utils.hash.md5\<close>; the node parser and \<^verbatim>\<open>VectorStoreIndex\<close> constructor that turn
  the documents into an index (they may raise); and
  \<^verbatim>\<open>services.document.query.query_results\<close> (it may raise).
\<close>

record 'idx index_env =
  md5 :: "string \<Rightarrow> string"
  build_index :: "document option list \<Rightarrow> error + 'idx"
  query_results :: "'idx \<Rightarrow> string \<Rightarrow> real option \<Rightarrow> int option \<Rightarrow> error + match list"

text \<open>
  \<^verbatim>\<open>build_document\<close> only reads the result: it returns \<^verbatim>\<open>None\<close> (here \<open>Inr None\<close>)
  for an empty link or snippet, takes the uuid of the result when the key is present
  and the md5 of the link otherwise, and puts it into the metadata and the
  \<^verbatim>\<open>doc_id\<close> of the document. Nothing is written to the result.
\<close>

definition build_document :: "(string \<Rightarrow> string) \<Rightarrow> result \<Rightarrow> error + document option" where
  "build_document hash r =
     (case link r of
        None \<Rightarrow> Inl (KeyError ''link'')
      | Some l \<Rightarrow>
          if l = [] then Inr None
          else (case snippet r of
             None \<Rightarrow> Inl (KeyError ''snippet'')
           | Some s \<Rightarrow>
               if s = [] then Inr None
               else
                 let u = (case uuid r of Some u \<Rightarrow> u | None \<Rightarrow> hash l);
                     t = (case content r of
                            Some c \<Rightarrow> if length c > length s then c else s
                          | None \<Rightarrow> s)
                 in (case title r of
                       None \<Rightarrow> Inl (KeyError ''title'')
                     | Some ti \<Rightarrow>
                         Inr (Some \<lparr>doc_text = t, meta_uuid = u, meta_title = ti,
                                    meta_snippet = s, meta_link = l, doc_id = u\<rparr>))))"

text \<open>
  The loop of \<^verbatim>\<open>store_results\<close>: after each document the \<^verbatim>\<open>print\<close> reads
  \<^verbatim>\<open>result["title"]\<close> and \<^verbatim>\<open>result["link"]\<close>.
\<close>

fun build_documents :: "(string \<Rightarrow> string) \<Rightarrow> result list \<Rightarrow> error + document option list" where
  "build_documents hash [] = Inr []"
| "build_documents hash (r # rs) =
     (case build_document hash r of
        Inl e \<Rightarrow> Inl e
      | Inr d \<Rightarrow>
          (case title r of
             None \<Rightarrow> Inl (KeyError ''title'')
           | Some _ \<Rightarrow>
               (case link r of
                  None \<Rightarrow> Inl (KeyError ''link'')
                | Some _ \<Rightarrow>
                    (case build_documents hash rs of
                       Inl e \<Rightarrow> Inl e
                     | Inr ds \<Rightarrow> Inr (d # ds)))))"

definition store_results :: "'idx index_env \<Rightarrow> result list \<Rightarrow> error + 'idx" where
  "store_results ienv results =
     (case build_documents (md5 ienv) results of
        Inl e \<Rightarrow> Inl e
      | Inr documents \<Rightarrow> build_index ienv documents)"

subsection \<open>Writing the blobs back (lines 245 to 253)\<close>

text \<open>
  \<open>push r out\<close> puts the record \<open>r\<close>, which the loop has already passed, in
  front of the state that the rest of the loop leaves behind.
\<close>

fun push :: "result \<Rightarrow> outcome \<Rightarrow> outcome" where
  "push r (Returned rs) = Returned (r # rs)"
| "push r (Raised e rs) = Raised e (r # rs)"

text \<open>
  \<^verbatim>\<open>if result["uuid"] in content_maps: result["content"] = content_maps[result["uuid"]]\<close>
  for every result of the original list. \<^verbatim>\<open>result["uuid"]\<close> raises \<^verbatim>\<open>KeyError\<close> on a
  result without that key; the results before it have been written already.
\<close>

fun merge_back :: "(string \<rightharpoonup> string) \<Rightarrow> result list \<Rightarrow> outcome" where
  "merge_back cm [] = Returned []"
| "merge_back cm (r # rs) =
     (case uuid r of
        None \<Rightarrow> Raised (KeyError ''uuid'') (r # rs)
      | Some u \<Rightarrow>
          push (case cm u of None \<Rightarrow> r | Some blob \<Rightarrow> r\<lparr>content := Some blob\<rparr>)
               (merge_back cm rs))"

text \<open>
  The whole stage. The first part (selection, indexing, query) runs inside a
  \<^verbatim>\<open>try\<close> that prints and re-raises; nothing has been written to a result then.
\<close>

definition filter_content ::
  "'idx index_env \<Rightarrow> result list \<Rightarrow> string \<Rightarrow> real option \<Rightarrow> int option \<Rightarrow> outcome" where
  "filter_content ienv search_results qry filter_min_score filter_top_k =
     (case results_with_content search_results of
        Inl e \<Rightarrow> Raised e search_results
      | Inr selected \<Rightarrow>
          (case store_results ienv selected of
             Inl e \<Rightarrow> Raised e search_results
           | Inr index \<Rightarrow>
               (case query_results ienv index qry filter_min_score filter_top_k of
                  Inl e \<Rightarrow> Raised e search_results
                | Inr match_results \<Rightarrow>
                    merge_back (uuid_content_maps match_results) search_results)))"

section \<open>ContentFetcher\<close>

subsection \<open>Fetching pages: \<^verbatim>\<open>src/services/web.py\<close>\<close>

text \<open>
  The collaborators: the HTTP client and the markup converter. A GET either fails
  before a response exists (\<^verbatim>\<open>session.get\<close> raises, outside the \<^verbatim>\<open>try\<close> of
  \<^verbatim>\<open>fetch_url\<close>), or gives a response whose status check or body read raises
  (inside the \<^verbatim>\<open>try\<close>), or gives a body. \<^verbatim>\<open>HTML2Text.handle\<close> gives a text or
  raises (\<open>None\<close>). Opening the client session succeeds, raises
  \<^verbatim>\<open>aiohttp.ClientResponseError\<close>, or raises something else. Within one batch a URL
  has one outcome: \<open>http_get\<close> is a function of the URL.
\<close>

datatype http_outcome = Body string | BadResponse | ConnectError string

datatype session_outcome = SessionOpen | SessionResponseError | SessionFailure string

record http_env =
  client_session :: session_outcome
  http_get :: "string \<Rightarrow> http_outcome"
  html2text :: "string \<Rightarrow> string option"

definition fetch_url :: "http_env \<Rightarrow> string \<Rightarrow> error + string" where
  "fetch_url http url =
     (case http_get http url of
        ConnectError msg \<Rightarrow> Inl (Failure msg)
      | BadResponse \<Rightarrow> Inr ''''
      | Body html \<Rightarrow> Inr html)"

definition html_to_markdown :: "http_env \<Rightarrow> string \<Rightarrow> string" where
  "html_to_markdown http html =
     (case html2text http html of None \<Rightarrow> '''' | Some markdown \<Rightarrow> markdown)"

text \<open>
  \<^verbatim>\<open>re.sub(r'\n{2,}', '\n', markdown)\<close>: every run of two or more newlines becomes
  one newline.
\<close>

fun collapse_newlines :: "string \<Rightarrow> string" where
  "collapse_newlines (c # d # cs) =
     (if c = CHR 0x0A \<and> d = CHR 0x0A then collapse_newlines (d # cs)
      else c # collapse_newlines (d # cs))"
| "collapse_newlines cs = cs"

definition fetch_markdown :: "http_env \<Rightarrow> string \<Rightarrow> string \<times> string" where
  "fetch_markdown http url =
     (case fetch_url http url of
        Inl e \<Rightarrow> (url, '''')
      | Inr html \<Rightarrow> (url, collapse_newlines (html_to_markdown http html)))"

text \<open>
  One task per URL; \<^verbatim>\<open>asyncio.gather\<close> returns the results in the order of the
  tasks. No task raises, since \<^verbatim>\<open>fetch_markdown\<close> catches everything.
\<close>

definition batch_fetch_urls :: "http_env \<Rightarrow> string list \<Rightarrow> error + (string \<times> string) list" where
  "batch_fetch_urls http urls =
     (case client_session http of
        SessionOpen \<Rightarrow> Inr (map (fetch_markdown http) urls)
      | SessionResponseError \<Rightarrow> Inr []
      | SessionFailure msg \<Rightarrow> Inl (Failure msg))"

subsection \<open>\<^verbatim>\<open>fetch_details\<close>: selection (lines 165 to 175)\<close>

text \<open>
  The loop over the results with the list \<^verbatim>\<open>urls\<close> collected so far. The cap
  \<^verbatim>\<open>len(urls) > top_k\<close> is tested first, on every iteration; comparing with a
  \<^verbatim>\<open>None\<close> parameter raises \<^verbatim>\<open>TypeError\<close>.
\<close>

fun collect_urls :: "real option \<Rightarrow> int option \<Rightarrow> result list \<Rightarrow> string list \<Rightarrow> error + string list" where
  "collect_urls min_score top_k [] urls = Inr urls"
| "collect_urls min_score top_k (res # rest) urls =
     (case top_k of
        None \<Rightarrow> Inl (TypeError ''top_k'')
      | Some k \<Rightarrow>
          if int (length urls) > k then Inr urls
          else (case score res of
             None \<Rightarrow> Inl (KeyError ''score'')
           | Some s \<Rightarrow>
               (case min_score of
                  None \<Rightarrow> Inl (TypeError ''min_score'')
                | Some m \<Rightarrow>
                    if s \<ge> m then
                      (case link res of
                         None \<Rightarrow> Inl (KeyError ''link'')
                       | Some l \<Rightarrow> collect_urls min_score top_k rest (urls @ [l]))
                    else collect_urls min_score top_k rest urls)))"

subsection \<open>\<^verbatim>\<open>fetch_details\<close>: merge (lines 186 to 201)\<close>

text \<open>\<^verbatim>\<open>content_maps[url] = content\<close> for every pair, a later pair overwriting.\<close>

definition url_content_maps :: "(string \<times> string) list \<Rightarrow> (string \<rightharpoonup> string)" where
  "url_content_maps details = foldl (\<lambda>cm (url, c). cm(url \<mapsto> c)) Map.empty details"

fun merge_details :: "(string \<rightharpoonup> string) \<Rightarrow> result list \<Rightarrow> outcome" where
  "merge_details cm [] = Returned []"
| "merge_details cm (r # rs) =
     (case link r of
        None \<Rightarrow> Raised (KeyError ''link'') (r # rs)
      | Some l \<Rightarrow>
          push (case cm l of None \<Rightarrow> r | Some c \<Rightarrow> r\<lparr>content := Some c\<rparr>)
               (merge_details cm rs))"

definition fetch_details :: "http_env \<Rightarrow> result list \<Rightarrow> real option \<Rightarrow> int option \<Rightarrow> outcome" where
  "fetch_details http search_results min_score top_k =
     (case collect_urls min_score top_k search_results [] of
        Inl e \<Rightarrow> Raised e search_results
      | Inr urls \<Rightarrow>
          (case batch_fetch_urls http urls of
             Inl e \<Rightarrow> Raised e search_results
           | Inr details \<Rightarrow> merge_details (url_content_maps details) search_results))"

section \<open>Orchestrator: \<^verbatim>\<open>rag_search\<close>\<close>

subsection \<open>Request, response and the search call\<close>

text \<open>
  The request model \<^verbatim>\<open>RagSearchReq\<close>: \<^verbatim>\<open>query\<close> is required, every other field is
  \<^verbatim>\<open>Optional\<close> and may hold \<^verbatim>\<open>None\<close>.
\<close>

record rag_search_req =
  query :: string
  locale_field :: "string option"
  search_n :: "int option"
  search_provider :: "string option"
  is_reranking :: "bool option"
  is_detail :: "bool option"
  detail_top_k :: "int option"
  detail_min_score :: "real option"
  is_filter :: "bool option"
  filter_min_score :: "real option"
  filter_top_k :: "int option"

text \<open>Python truth of an optional flag: \<^verbatim>\<open>None\<close> and \<^verbatim>\<open>False\<close> are false.\<close>

definition truthy :: "bool option \<Rightarrow> bool" where
  "truthy b = (b = Some True)"

text \<open>
  The two response shapes of \<^verbatim>\<open>utils.resp\<close>: an error message, or the data
  \<^verbatim>\<open>{"search_results": ...}\<close>.
\<close>

datatype response = resp_err string | resp_data "result list"

text \<open>The text \<^verbatim>\<open>{e}\<close> of an exception inside a message.\<close>

fun error_text :: "error \<Rightarrow> string" where
  "error_text (KeyError k) = [CHR 0x27] @ k @ [CHR 0x27]"
| "error_text (TypeError msg) = msg"
| "error_text (Failure msg) = msg"

text \<open>
  The parameters passed to the search provider: \<^verbatim>\<open>hl\<close> is set only for a
  non-empty locale.
\<close>

record search_params =
  q :: string
  num :: "int option"
  hl :: "string option"

definition search ::
  "(search_params \<Rightarrow> error + result list) \<Rightarrow> string \<Rightarrow> int option \<Rightarrow> string option
     \<Rightarrow> error + result list" where
  "search get_search_results qry n loc =
     get_search_results
       \<lparr>q = qry, num = n,
        hl = (case loc of None \<Rightarrow> None | Some l \<Rightarrow> if l = [] then None else Some l)\<rparr>"

subsection \<open>The api key of a request (lines 60 to 71)\<close>

text \<open>\<^verbatim>\<open>authorization.replace("Bearer ", "")\<close>: every occurrence is removed, left to right.\<close>

function replace_bearer :: "string \<Rightarrow> string" where
  "replace_bearer [] = []"
| "replace_bearer (c # cs) =
     (if take 7 (c # cs) = ''Bearer '' then replace_bearer (drop 7 (c # cs))
      else c # replace_bearer cs)"
  by pat_completeness auto
termination
  by (relation "measure length") auto

text \<open>
  \<^verbatim>\<open>apiKey\<close> is the empty string for a missing or empty header, and the header
  without its \<^verbatim>\<open>"Bearer "\<close> parts otherwise.
\<close>

definition api_key :: "string option \<Rightarrow> string" where
  "api_key authorization =
     (case authorization of
        None \<Rightarrow> ''''
      | Some a \<Rightarrow> if a = [] then '''' else replace_bearer a)"

subsection \<open>The pipeline (lines 78 to 119)\<close>

text \<open>The stages, for the record of which of them a request has invoked.\<close>

datatype stage = Retriever | Reranker | ContentFetcher | SemanticFilter

text \<open>
  \<^verbatim>\<open>try: search_results = stage(search_results, ...) except Exception: print(...)\<close>:
  after a return the variable holds the returned list; after an exception it still
  holds the list it held, whose dicts are in the state the stage left them in.
\<close>

fun after_stage :: "outcome \<Rightarrow> result list" where
  "after_stage (Returned rs) = rs"
| "after_stage (Raised e rs) = rs"

text \<open>
  The reranker \<^verbatim>\<open>services.rerank.rerank.rerank\<close> is not part of the modelled source: it
  is a parameter \<open>rerank\<close>, any function from the list and the query to an outcome.
\<close>

definition rerank_step ::
  "(result list \<Rightarrow> string \<Rightarrow> outcome) \<Rightarrow> rag_search_req \<Rightarrow> result list \<Rightarrow> result list \<times> stage list" where
  "rerank_step rerank req search_results =
     (if truthy (is_reranking req)
      then (after_stage (rerank search_results (query req)), [Reranker])
      else (search_results, []))"

definition detail_step ::
  "http_env \<Rightarrow> rag_search_req \<Rightarrow> result list \<Rightarrow> result list \<times> stage list" where
  "detail_step http req search_results =
     (if truthy (is_detail req)
      then (after_stage (fetch_details http search_results (detail_min_score req) (detail_top_k req)),
            [ContentFetcher])
      else (search_results, []))"

definition filter_step ::
  "'idx index_env \<Rightarrow> rag_search_req \<Rightarrow> result list \<Rightarrow> result list \<times> stage list" where
  "filter_step ienv req search_results =
     (if truthy (is_filter req)
      then (after_stage (filter_content ienv search_results (query req)
                           (filter_min_score req) (filter_top_k req)),
            [SemanticFilter])
      else (search_results, []))"

text \<open>
  The handler. \<open>auth_api_key\<close> is \<^verbatim>\<open>os.getenv("AUTH_API_KEY")\<close>, \<open>None\<close> when the
  variable is unset. The result is the response together with the stages invoked, in
  order.
\<close>

definition rag_search ::
  "string option \<Rightarrow> (search_params \<Rightarrow> error + result list) \<Rightarrow> (result list \<Rightarrow> string \<Rightarrow> outcome)
     \<Rightarrow> http_env \<Rightarrow> 'idx index_env \<Rightarrow> rag_search_req \<Rightarrow> string option
     \<Rightarrow> response \<times> stage list" where
  "rag_search auth_api_key get_search_results rerank http ienv req authorization =
     (if Some (api_key authorization) \<noteq> auth_api_key then (resp_err ''Access Denied'', [])
      else if query req = '''' then (resp_err ''invalid params'', [])
      else
        (case search get_search_results (query req) (search_n req) (locale_field req) of
           Inl e \<Rightarrow> (resp_err (''get search results failed: '' @ error_text e), [Retriever])
         | Inr found \<Rightarrow>
             (case rerank_step rerank req found of (reranked, t1) \<Rightarrow>
             (case detail_step http req reranked of (detailed, t2) \<Rightarrow>
             (case filter_step ienv req detailed of (filtered, t3) \<Rightarrow>
                (resp_data filtered, Retriever # t1 @ t2 @ t3))))))"

section \<open>Reranker\<close>

text \<open>
  Modelled from the spec: the reranker \<^verbatim>\<open>services/rerank/rerank.py\<close> is missing from
  the source. The spec, section 4.3: it "recomputes \<^verbatim>\<open>score\<close> for every item based on
  semantic relevance to the query and returns the list reordered descending by new
  score. Tolerates an empty list (identity result). Never touches
  \<^verbatim>\<open>uuid\<close>/\<^verbatim>\<open>url\<close>/\<^verbatim>\<open>title\<close>/\<^verbatim>\<open>snippet\<close>." The relevance model is the parameter
  \<open>relevance\<close>.
\<close>

definition rescore :: "(string \<Rightarrow> result \<Rightarrow> real) \<Rightarrow> string \<Rightarrow> result \<Rightarrow> result" where
  "rescore relevance qry r = r\<lparr>score := Some (relevance qry r)\<rparr>"

definition rerank_spec :: "(string \<Rightarrow> result \<Rightarrow> real) \<Rightarrow> result list \<Rightarrow> string \<Rightarrow> outcome" where
  "rerank_spec relevance rs qry =
     Returned (sort_key (\<lambda>r. case score r of Some s \<Rightarrow> - s | None \<Rightarrow> 0)
                 (map (rescore relevance qry) rs))"

section \<open>Vocabulary of the properties\<close>

text \<open>
  A result is enriched when its content is present and strictly longer than its
  snippet (spec, section 3).
\<close>

definition enriched :: "result \<Rightarrow> bool" where
  "enriched r =
     (case content r of
        None \<Rightarrow> False
      | Some c \<Rightarrow> (case snippet r of None \<Rightarrow> False | Some s \<Rightarrow> length c > length s))"

text \<open>
  Two states of a list hold the same records when they have the same length and
  the records at each position agree on every field but \<^verbatim>\<open>content\<close>.
\<close>

definition same_but_content :: "result list \<Rightarrow> result list \<Rightarrow> bool" where
  "same_but_content rs out = list_all2 (\<lambda>r r'. r' = r\<lparr>content := content r'\<rparr>) rs out"

text \<open>
  What one iteration of a merge loop does to a result, given the value of the key
  it looks up: the content is overwritten when the key has an entry in the map.
\<close>

definition write_from :: "(string \<rightharpoonup> string) \<Rightarrow> string option \<Rightarrow> result \<Rightarrow> result" where
  "write_from cm key r =
     (case key of
        None \<Rightarrow> r
      | Some k \<Rightarrow> (case cm k of None \<Rightarrow> r | Some c \<Rightarrow> r\<lparr>content := Some c\<rparr>))"

section \<open>Example data\<close>

text \<open>
  Concrete results, requests and collaborators on which the properties below are
  evaluated. \<open>default_req\<close> holds the defaults of \<^verbatim>\<open>RagSearchReq\<close>.
\<close>

abbreviation page_a :: result where
  "page_a \<equiv> \<lparr>title = Some ''A'', link = Some ''http://a'', snippet = Some ''sa'',
              score = Some 0.9, content = None, uuid = None\<rparr>"

abbreviation page_b :: result where
  "page_b \<equiv> \<lparr>title = Some ''B'', link = Some ''http://b'', snippet = Some ''sb'',
              score = Some 0.5, content = None, uuid = None\<rparr>"

abbreviation page_c :: result where
  "page_c \<equiv> \<lparr>title = Some ''C'', link = Some ''http://c'', snippet = Some ''sc'',
              score = Some 0.6, content = None, uuid = Some ''c''\<rparr>"

abbreviation page_u :: result where
  "page_u \<equiv> \<lparr>title = Some ''U'', link = Some ''http://u'', snippet = Some ''su'',
              score = Some 0.9, content = None, uuid = Some ''a''\<rparr>"

abbreviation page_long :: result where
  "page_long \<equiv> \<lparr>title = Some ''L'', link = Some ''http://l'', snippet = Some ''sl'',
              score = Some 0.8, content = Some ''long text'', uuid = Some ''a''\<rparr>"

abbreviation page_short :: result where
  "page_short \<equiv> \<lparr>title = Some ''S'', link = Some ''http://s'', snippet = Some ''snip'',
              score = Some 0.8, content = Some ''snip'', uuid = Some ''b''\<rparr>"

abbreviation default_req :: rag_search_req where
  "default_req \<equiv> \<lparr>query = ''rust'', locale_field = Some '''', search_n = Some 10,
      search_provider = Some ''google'', is_reranking = Some False, is_detail = Some False,
      detail_top_k = Some 6, detail_min_score = Some 0.7, is_filter = Some False,
      filter_min_score = Some 0.8, filter_top_k = Some 6\<rparr>"

abbreviation all_stages_req :: rag_search_req where
  "all_stages_req \<equiv> \<lparr>query = ''rust'', locale_field = Some '''', search_n = Some 10,
      search_provider = Some ''google'', is_reranking = Some True, is_detail = Some True,
      detail_top_k = Some 6, detail_min_score = Some 0.7, is_filter = Some True,
      filter_min_score = Some 0.8, filter_top_k = Some 6\<rparr>"

abbreviation http_down :: http_env where
  "http_down \<equiv> \<lparr>client_session = SessionOpen, http_get = (\<lambda>url. ConnectError ''down''),
      html2text = Some\<rparr>"

abbreviation http_up :: http_env where
  "http_up \<equiv> \<lparr>client_session = SessionOpen, http_get = (\<lambda>url. Body (''page of '' @ url)),
      html2text = Some\<rparr>"

abbreviation http_no_session :: http_env where
  "http_no_session \<equiv> \<lparr>client_session = SessionFailure ''no session'',
      http_get = (\<lambda>url. Body (''page of '' @ url)), html2text = Some\<rparr>"

abbreviation one_match_env :: "unit index_env" where
  "one_match_env \<equiv> \<lparr>md5 = id, build_index = (\<lambda>documents. Inr ()),
      query_results = (\<lambda>index qry min_score top_k.
         Inr [\<lparr>match_uuid = ''a'', match_content = ''x''\<rparr>])\<rparr>"

abbreviation store_down_env :: "unit index_env" where
  "store_down_env \<equiv> \<lparr>md5 = id, build_index = (\<lambda>documents. Inl (Failure ''store down'')),
      query_results = (\<lambda>index qry min_score top_k. Inr [])\<rparr>"

abbreviation keep_order :: "result list \<Rightarrow> string \<Rightarrow> outcome" where
  "keep_order \<equiv> (\<lambda>rs qry. Returned rs)"

abbreviation rerank_down :: "result list \<Rightarrow> string \<Rightarrow> outcome" where
  "rerank_down \<equiv> (\<lambda>rs qry. Raised (Failure ''model down'') rs)"

abbreviation prefers_b :: "string \<Rightarrow> result \<Rightarrow> real" where
  "prefers_b \<equiv> (\<lambda>qry r. if link r = Some ''http://b'' then 0.9 else 0.1)"

section \<open>Properties\<close>

subsection \<open>Outcomes and the state they carry\<close>

lemma push_after_stage: "after_stage (push r out) = r # after_stage out"
  by (cases out) simp_all

lemma push_eq_Returned:
  "push r out = Returned xs \<longleftrightarrow> (\<exists>ys. out = Returned ys \<and> xs = r # ys)"
  by (cases out) auto

lemma push_eq_Raised:
  "push r out = Raised e xs \<longleftrightarrow> (\<exists>ys. out = Raised e ys \<and> xs = r # ys)"
  by (cases out) auto

lemma same_but_content_refl: "same_but_content rs rs"
  by (simp add: same_but_content_def list_all2_same)

lemma same_but_content_Cons:
  "same_but_content (r # rs) (r' # out) \<longleftrightarrow>
     r' = r\<lparr>content := content r'\<rparr> \<and> same_but_content rs out"
  by (simp add: same_but_content_def)

lemma same_but_content_length: "same_but_content rs out \<Longrightarrow> length out = length rs"
  by (simp add: same_but_content_def list_all2_lengthD)

lemma same_but_content_uuid: "same_but_content rs out \<Longrightarrow> map uuid out = map uuid rs"
  unfolding same_but_content_def
proof (induction rs out rule: list_all2_induct)
  case Nil
  show ?case by simp
next
  case (Cons r rs r' out)
  have "uuid (r\<lparr>content := content r'\<rparr>) = uuid r" by simp
  with Cons show ?case by simp
qed

subsection \<open>The merge loops\<close>

lemma merge_back_state: "same_but_content rs (after_stage (merge_back cm rs))"
  by (induction rs)
     (auto simp: same_but_content_refl same_but_content_Cons push_after_stage
           split: option.splits)

lemma merge_details_state: "same_but_content rs (after_stage (merge_details cm rs))"
  by (induction rs)
     (auto simp: same_but_content_refl same_but_content_Cons push_after_stage
           split: option.splits)

lemma filter_content_state:
  "same_but_content rs (after_stage (filter_content ienv rs qry fms ftk))"
  by (auto simp: filter_content_def same_but_content_refl merge_back_state
           split: sum.splits)

lemma fetch_details_state:
  "same_but_content rs (after_stage (fetch_details http rs ms tk))"
  by (auto simp: fetch_details_def same_but_content_refl merge_details_state
           split: sum.splits)

lemma merge_back_raises:
  "\<exists>r \<in> set rs. uuid r = None \<Longrightarrow> \<exists>st. merge_back cm rs = Raised (KeyError ''uuid'') st"
  by (induction rs) (auto simp: push_eq_Raised split: option.splits)

lemma merge_back_returns:
  "\<forall>r \<in> set rs. uuid r \<noteq> None \<Longrightarrow> \<exists>out. merge_back cm rs = Returned out"
  by (induction rs) (auto simp: push_eq_Returned split: option.splits)

lemma merge_details_returns:
  "\<forall>r \<in> set rs. link r \<noteq> None \<Longrightarrow> \<exists>out. merge_details cm rs = Returned out"
  by (induction rs) (auto simp: push_eq_Returned split: option.splits)

lemma merge_details_Returned:
  "merge_details cm rs = Returned out \<Longrightarrow>
     out = map (\<lambda>r. write_from cm (link r) r) rs \<and> (\<forall>r \<in> set rs. link r \<noteq> None)"
  by (induction rs arbitrary: out)
     (auto simp: push_eq_Returned write_from_def split: option.splits)

lemma merge_back_Returned:
  "merge_back cm rs = Returned out \<Longrightarrow>
     out = map (\<lambda>r. write_from cm (uuid r) r) rs \<and> (\<forall>r \<in> set rs. uuid r \<noteq> None)"
  by (induction rs arbitrary: out)
     (auto simp: push_eq_Returned write_from_def split: option.splits)

subsection \<open>Selection loops\<close>

lemma results_with_content_filter:
  "results_with_content rs = Inr sel \<Longrightarrow> sel = filter enriched rs"
  by (induction rs arbitrary: sel)
     (auto simp: enriched_def split: option.splits sum.splits if_splits)

lemma collect_urls_selection:
  "collect_urls ms tk rs acc = Inr urls \<Longrightarrow>
     \<exists>sel. subseq sel rs \<and> map Some urls = map Some acc @ map link sel
        \<and> (\<forall>r \<in> set sel. \<exists>s m. score r = Some s \<and> ms = Some m \<and> m \<le> s)"
proof (induction rs arbitrary: acc urls)
  case Nil
  then show ?case by auto
next
  case (Cons r rs)
  from Cons.prems obtain k where k: "tk = Some k"
    by (cases tk) auto
  show ?case
  proof (cases "int (length acc) > k")
    case True
    with Cons.prems k have "urls = acc" by simp
    then show ?thesis by (intro exI [of _ "[]"]) simp
  next
    case False
    from Cons.prems k False obtain s where s: "score r = Some s"
      by (cases "score r") auto
    from Cons.prems k False s obtain m where m: "ms = Some m"
      by (cases ms) auto
    show ?thesis
    proof (cases "m \<le> s")
      case True
      from Cons.prems k False s m True obtain l where l: "link r = Some l"
        by (cases "link r") auto
      from Cons.prems k False s m True l
      have "collect_urls ms tk rs (acc @ [l]) = Inr urls" by simp
      from Cons.IH [OF this] obtain sel where sel: "subseq sel rs"
        "map Some urls = map Some (acc @ [l]) @ map link sel"
        "\<forall>r \<in> set sel. \<exists>s m. score r = Some s \<and> ms = Some m \<and> m \<le> s"
        by blast
      show ?thesis
        using sel s m True l by (intro exI [of _ "r # sel"]) simp
    next
      case low: False
      from Cons.prems k False s m low
      have "collect_urls ms tk rs acc = Inr urls" by simp
      from Cons.IH [OF this] obtain sel where sel: "subseq sel rs"
        "map Some urls = map Some acc @ map link sel"
        "\<forall>r \<in> set sel. \<exists>s m. score r = Some s \<and> ms = Some m \<and> m \<le> s"
        by blast
      show ?thesis
        using sel by (intro exI [of _ sel]) (simp add: list_emb_Cons)
    qed
  qed
qed

lemma collect_urls_bound:
  "collect_urls ms (Some k) rs acc = Inr urls \<Longrightarrow>
     int (length urls) \<le> max (int (length acc)) (k + 1)"
proof (induction rs arbitrary: acc urls)
  case Nil
  then show ?case by simp
next
  case (Cons r rs)
  show ?case
  proof (cases "int (length acc) > k")
    case True
    with Cons.prems show ?thesis by simp
  next
    case False
    with Cons.prems have
      "collect_urls ms (Some k) rs acc = Inr urls \<or>
       (\<exists>l. collect_urls ms (Some k) rs (acc @ [l]) = Inr urls)"
      by (auto split: option.splits if_splits)
    then show ?thesis
    proof
      assume "collect_urls ms (Some k) rs acc = Inr urls"
      from Cons.IH [OF this] show ?thesis .
    next
      assume "\<exists>l. collect_urls ms (Some k) rs (acc @ [l]) = Inr urls"
      then obtain l where "collect_urls ms (Some k) rs (acc @ [l]) = Inr urls" ..
      from Cons.IH [OF this] False show ?thesis by simp
    qed
  qed
qed

subsection \<open>The fetched pages\<close>

lemma url_content_maps_lookup:
  "\<forall>p \<in> set details. snd p = f (fst p) \<Longrightarrow>
   foldl (\<lambda>cm (url, c). cm(url \<mapsto> c)) m details l =
     (if l \<in> fst ` set details then Some (f l) else m l)"
  by (induction details arbitrary: m) (auto split: prod.splits)

lemma fetch_markdown_fst: "fst (fetch_markdown http url) = url"
  by (simp add: fetch_markdown_def split: sum.splits)

lemma batch_fetch_urls_details:
  assumes "batch_fetch_urls http urls = Inr details"
  shows "fst ` set details \<subseteq> set urls"
    and "\<forall>p \<in> set details. snd p = snd (fetch_markdown http (fst p))"
proof -
  from assms have "details = map (fetch_markdown http) urls \<or> details = []"
    by (auto simp: batch_fetch_urls_def split: session_outcome.splits)
  then have *: "set details \<subseteq> fetch_markdown http ` set urls" by auto
  show "fst ` set details \<subseteq> set urls"
    using * by (auto simp: fetch_markdown_fst dest!: subsetD)
  show "\<forall>p \<in> set details. snd p = snd (fetch_markdown http (fst p))"
    using * by (auto simp: fetch_markdown_fst dest!: subsetD)
qed

subsection \<open>The fragment merge\<close>

lemma foldl_add_match:
  "foldl add_match cm ms u =
     (case cm u of
        None \<Rightarrow> (if fragments_of u ms = [] then None
                 else Some (concat (tl (fragments_of u ms))))
      | Some blob \<Rightarrow> Some (blob @ concat (fragments_of u ms)))"
proof (induction ms arbitrary: cm)
  case Nil
  show ?case by (simp add: fragments_of_def split: option.splits)
next
  case (Cons m ms)
  have step: "foldl add_match cm (m # ms) u =
      (case add_match cm m u of
         None \<Rightarrow> (if fragments_of u ms = [] then None
                  else Some (concat (tl (fragments_of u ms))))
       | Some blob \<Rightarrow> Some (blob @ concat (fragments_of u ms)))"
    by (simp add: Cons.IH)
  show ?case
    unfolding step
    by (cases "match_uuid m = u")
       (auto simp: add_match_def fragments_of_def split: option.splits)
qed

lemma uuid_content_maps_eq:
  "uuid_content_maps ms u =
     (if fragments_of u ms = [] then None
      else Some (concat (tl (fragments_of u ms))))"
  by (simp add: uuid_content_maps_def foldl_add_match)

text \<open>
  Claim C1, evaluated on the code. The claim says that the blob of a uuid is the
  concatenation of all its matched fragment texts, so that a uuid with exactly one
  matched fragment gets that fragment's text. The loop enters a new uuid with the
  empty string and never appends the fragment that introduced it: for the single
  match with uuid \<open>a\<close> and text \<open>x\<close> the blob is the empty string, not \<open>x\<close>,
  and for the two matches \<open>x\<close>, \<open>y\<close> of \<open>a\<close> the blob is \<open>y\<close>, not \<open>xy\<close>.
\<close>

theorem merge_drops_first_fragment:
  "uuid_content_maps [\<lparr>match_uuid = ''a'', match_content = ''x''\<rparr>] ''a'' = Some ''''
   \<and> concat (fragments_of ''a'' [\<lparr>match_uuid = ''a'', match_content = ''x''\<rparr>]) = ''x''
   \<and> uuid_content_maps [\<lparr>match_uuid = ''a'', match_content = ''x''\<rparr>,
                         \<lparr>match_uuid = ''a'', match_content = ''y''\<rparr>] ''a'' = Some ''y''"
  by (simp add: uuid_content_maps_def add_match_def fragments_of_def)

subsection \<open>Authentication and validation\<close>

text \<open>
  Claim C6 (amended). The api key of a request is the Authorization header with every
  \<^verbatim>\<open>"Bearer "\<close> removed, and the empty string when the header is missing or empty.
  Whenever that key differs from the configured secret (always so when the secret is
  unset), the response is "Access Denied" and no stage has been invoked, whatever the
  query and the other fields are. A request without the header is denied whenever the
  configured secret is not the empty string.
\<close>

theorem access_denied_on_key_mismatch:
  "(Some (api_key authorization) \<noteq> auth_api_key \<longrightarrow>
      rag_search auth_api_key get_search_results rerank http ienv req authorization
        = (resp_err ''Access Denied'', []))
   \<and> (auth_api_key \<noteq> Some '''' \<longrightarrow>
      rag_search auth_api_key get_search_results rerank http ienv req None
        = (resp_err ''Access Denied'', []))"
  by (auto simp: rag_search_def api_key_def)

text \<open>The theorem at a wrong token, at a missing header and at an unset secret.\<close>

theorem access_denied_on_key_mismatch_witness:
  "rag_search (Some ''k'') (\<lambda>params. Inr [page_a]) keep_order http_up one_match_env
      default_req (Some ''Bearer wrong'') = (resp_err ''Access Denied'', [])
   \<and> rag_search (Some ''k'') (\<lambda>params. Inr [page_a]) keep_order http_up one_match_env
      default_req None = (resp_err ''Access Denied'', [])
   \<and> rag_search None (\<lambda>params. Inr [page_a]) keep_order http_up one_match_env
      default_req (Some ''Bearer k'') = (resp_err ''Access Denied'', [])"
  using access_denied_on_key_mismatch
    [of "Some ''Bearer wrong''" "Some ''k''" "\<lambda>params. Inr [page_a]" keep_order http_up
        one_match_env default_req]
    access_denied_on_key_mismatch
    [of "Some ''Bearer k''" "None" "\<lambda>params. Inr [page_a]" keep_order http_up
        one_match_env default_req]
  by (simp add: api_key_def)

text \<open>
  Claim C6 as stated fails: with the secret configured as the empty string, a
  request without an Authorization header passes the check and the Retriever runs.
\<close>

theorem missing_header_empty_secret_passes:
  "rag_search (Some '''') (\<lambda>params. Inr [page_a]) keep_order http_up one_match_env
      default_req None = (resp_data [page_a], [Retriever])"
  by (simp add: rag_search_def api_key_def search_def truthy_def
        rerank_step_def detail_step_def filter_step_def)

text \<open>
  Claim C7. An authenticated request with an empty query gets the error
  "invalid params" at once and no stage has been invoked, whatever the other
  request fields, the providers and the stores are.
\<close>

theorem empty_query_invalid_params:
  assumes "Some (api_key authorization) = auth_api_key" and "query req = ''''"
  shows "rag_search auth_api_key get_search_results rerank http ienv req authorization
           = (resp_err ''invalid params'', [])"
  using assms by (simp add: rag_search_def)

text \<open>The theorem at a request with the detail flag set and an empty query.\<close>

theorem empty_query_invalid_params_witness:
  "rag_search (Some ''k'') (\<lambda>params. Inr [page_a]) keep_order http_up one_match_env
      (default_req\<lparr>query := '''', is_detail := Some True\<rparr>) (Some ''Bearer k'')
     = (resp_err ''invalid params'', [])"
  using empty_query_invalid_params
    [of "Some ''Bearer k''" "Some ''k''" "default_req\<lparr>query := '''', is_detail := Some True\<rparr>"
        "\<lambda>params. Inr [page_a]" keep_order http_up one_match_env]
  by (simp add: api_key_def)

subsection \<open>The pipeline without optional stages\<close>

text \<open>
  Claim C8. For an authenticated request with a non-empty query whose three flags
  are all false (or \<^verbatim>\<open>None\<close>), the returned list is the list the Retriever returned,
  unchanged, and the Retriever is the only stage invoked.
\<close>

theorem flags_off_returns_retrieved:
  assumes "Some (api_key authorization) = auth_api_key"
      and "query req \<noteq> ''''"
      and "\<not> truthy (is_reranking req)" and "\<not> truthy (is_detail req)"
      and "\<not> truthy (is_filter req)"
      and "search get_search_results (query req) (search_n req) (locale_field req) = Inr found"
  shows "rag_search auth_api_key get_search_results rerank http ienv req authorization
           = (resp_data found, [Retriever])"
  using assms by (simp add: rag_search_def rerank_step_def detail_step_def filter_step_def)

text \<open>The theorem at the default request.\<close>

theorem flags_off_returns_retrieved_witness:
  "rag_search (Some ''k'') (\<lambda>params. Inr [page_a, page_b]) keep_order http_up one_match_env
      default_req (Some ''Bearer k'')
     = (resp_data [page_a, page_b], [Retriever])"
  using flags_off_returns_retrieved
    [of "Some ''Bearer k''" "Some ''k''" default_req
        "\<lambda>params. Inr [page_a, page_b]" "[page_a, page_b]" keep_order http_up one_match_env]
  by (simp add: api_key_def truthy_def search_def)

subsection \<open>SemanticFilter: what is indexed\<close>

text \<open>
  Claim C9. When the selection loop of the filter completes, the list it hands to
  \<^verbatim>\<open>store_results\<close> is exactly the enriched results of the input, in order: every
  selected result has content present and strictly longer than its snippet, every
  other result is left out of the indexing. The results left out stay in the list
  the stage returns, which has the length of the input and holds the input's
  records, each with at most its content changed.
\<close>

theorem indexing_selects_enriched:
  assumes "results_with_content rs = Inr selected"
  shows "selected = filter enriched rs
     \<and> (\<forall>r \<in> set selected. \<exists>c s. content r = Some c \<and> snippet r = Some s \<and> length s < length c)
     \<and> filter_content ienv rs qry fms ftk =
         (case store_results ienv (filter enriched rs) of
            Inl e \<Rightarrow> Raised e rs
          | Inr index \<Rightarrow>
              (case query_results ienv index qry fms ftk of
                 Inl e \<Rightarrow> Raised e rs
               | Inr match_results \<Rightarrow> merge_back (uuid_content_maps match_results) rs))
     \<and> (\<forall>out. filter_content ienv rs qry fms ftk = Returned out
           \<longrightarrow> length out = length rs \<and> same_but_content rs out)"
proof -
  have sel: "selected = filter enriched rs"
    using assms by (rule results_with_content_filter)
  have enr: "\<forall>r \<in> set selected. \<exists>c s. content r = Some c \<and> snippet r = Some s \<and> length s < length c"
    unfolding sel by (auto simp: enriched_def split: option.splits)
  have run: "filter_content ienv rs qry fms ftk =
         (case store_results ienv (filter enriched rs) of
            Inl e \<Rightarrow> Raised e rs
          | Inr index \<Rightarrow>
              (case query_results ienv index qry fms ftk of
                 Inl e \<Rightarrow> Raised e rs
               | Inr match_results \<Rightarrow> merge_back (uuid_content_maps match_results) rs))"
    using assms sel by (simp add: filter_content_def)
  have len: "\<forall>out. filter_content ienv rs qry fms ftk = Returned out
           \<longrightarrow> length out = length rs \<and> same_but_content rs out"
  proof (intro allI impI)
    fix out assume "filter_content ienv rs qry fms ftk = Returned out"
    with filter_content_state [of rs ienv qry fms ftk]
    have "same_but_content rs out" by simp
    then show "length out = length rs \<and> same_but_content rs out"
      by (simp add: same_but_content_length)
  qed
  from sel enr run len show ?thesis by blast
qed

text \<open>
  The theorem at a list of an enriched result, a result whose content is as long as
  its snippet, and a result without content.
\<close>

theorem indexing_selects_enriched_witness:
  "results_with_content [page_long, page_short, page_c] = Inr [page_long]
   \<and> filter enriched [page_long, page_short, page_c] = [page_long]
   \<and> filter_content one_match_env [page_long, page_short, page_c] ''rust'' (Some 0.8) (Some 6)
       = Returned [page_long\<lparr>content := Some ''''\<rparr>, page_short, page_c]"
  using indexing_selects_enriched [of "[page_long, page_short, page_c]" "[page_long]"
      one_match_env "''rust''" "Some 0.8" "Some 6"]
  by (simp add: enriched_def store_results_def build_document_def Let_def
        uuid_content_maps_def add_match_def)

subsection \<open>ContentFetcher: selection\<close>

text \<open>
  Claim C4 (amended). The URLs selected are the links of a subsequence of the input
  list, in the list's order, each of a result with \<^verbatim>\<open>score >= detail_min_score\<close>, and
  their number is at most \<open>max 0 (detail_top_k + 1)\<close>.
\<close>

theorem selection_threshold_and_cap:
  assumes "collect_urls min_score top_k rs [] = Inr urls"
  shows "(\<exists>sel. subseq sel rs \<and> map Some urls = map link sel
            \<and> (\<forall>r \<in> set sel. \<exists>s m. score r = Some s \<and> min_score = Some m \<and> m \<le> s))
     \<and> (\<forall>k. top_k = Some k \<longrightarrow> int (length urls) \<le> max 0 (k + 1))"
proof -
  from collect_urls_selection [OF assms]
  have a: "\<exists>sel. subseq sel rs \<and> map Some urls = map link sel
            \<and> (\<forall>r \<in> set sel. \<exists>s m. score r = Some s \<and> min_score = Some m \<and> m \<le> s)"
    by simp
  have b: "\<forall>k. top_k = Some k \<longrightarrow> int (length urls) \<le> max 0 (k + 1)"
  proof (intro allI impI)
    fix k assume "top_k = Some k"
    with assms have "collect_urls min_score (Some k) rs [] = Inr urls" by simp
    from collect_urls_bound [OF this] show "int (length urls) \<le> max 0 (k + 1)" by simp
  qed
  from a b show ?thesis by blast
qed

text \<open>The theorem at the cap 0, where one URL is selected.\<close>

theorem selection_threshold_and_cap_witness:
  "collect_urls (Some 0.7) (Some 0) [page_b, page_a, page_long, page_short] [] =
      Inr [''http://a'']
   \<and> int (length [''http://a'']) \<le> max 0 (0 + 1)"
  using selection_threshold_and_cap
    [of "Some 0.7" "Some 0" "[page_b, page_a, page_long, page_short]" "[''http://a'']"]
  by simp

text \<open>
  Claim C4 as stated fails for a cap below \<open>-1\<close>: the loop stops at once, no URL is
  selected, and 0 is not at most \<open>detail_top_k + 1\<close>.
\<close>

theorem negative_cap_counterexample:
  "collect_urls (Some 0.7) (Some (- 2)) [page_a, page_long] [] = Inr []
   \<and> \<not> int (length ([] :: string list)) \<le> - 2 + 1"
  by simp

subsection \<open>ContentFetcher: merge\<close>

lemma url_content_maps_fetched:
  assumes "batch_fetch_urls http urls = Inr details"
  shows "url_content_maps details l =
     (if l \<in> fst ` set details then Some (snd (fetch_markdown http l)) else None)"
  unfolding url_content_maps_def
  using url_content_maps_lookup
    [OF batch_fetch_urls_details(2) [OF assms], of Map.empty l]
  by simp

text \<open>
  Claim C2 (amended). When every result has a link, the stage returns the input list
  in which a result whose link is not among the fetched URLs is left as it is, and a
  result whose link is among them has its content set to the text its fetch task
  returned, whether or not the fetch succeeded; that text is the empty string when
  the connection failed. The fetched URLs are among the selected ones.
\<close>

theorem fetched_links_get_content:
  assumes "collect_urls min_score top_k rs [] = Inr urls"
      and "batch_fetch_urls http urls = Inr details"
      and "\<forall>r \<in> set rs. link r \<noteq> None"
  shows "fetch_details http rs min_score top_k =
           Returned (map (\<lambda>r. case link r of
                                 None \<Rightarrow> r
                               | Some l \<Rightarrow>
                                   if l \<in> fst ` set details
                                   then r\<lparr>content := Some (snd (fetch_markdown http l))\<rparr>
                                   else r) rs)
     \<and> fst ` set details \<subseteq> set urls
     \<and> (\<forall>l msg. http_get http l = ConnectError msg \<longrightarrow> snd (fetch_markdown http l) = '''')"
proof -
  let ?cm = "url_content_maps details"
  have run: "fetch_details http rs min_score top_k = merge_details ?cm rs"
    using assms(1,2) by (simp add: fetch_details_def)
  from merge_details_returns [OF assms(3)] obtain out
    where out: "merge_details ?cm rs = Returned out" by blast
  from merge_details_Returned [OF out]
  have "out = map (\<lambda>r. write_from ?cm (link r) r) rs" by simp
  also have "\<dots> = map (\<lambda>r. case link r of
                                 None \<Rightarrow> r
                               | Some l \<Rightarrow>
                                   if l \<in> fst ` set details
                                   then r\<lparr>content := Some (snd (fetch_markdown http l))\<rparr>
                                   else r) rs"
    by (rule map_cong)
       (auto simp: write_from_def url_content_maps_fetched [OF assms(2)] split: option.splits)
  finally have a: "fetch_details http rs min_score top_k =
           Returned (map (\<lambda>r. case link r of
                                 None \<Rightarrow> r
                               | Some l \<Rightarrow>
                                   if l \<in> fst ` set details
                                   then r\<lparr>content := Some (snd (fetch_markdown http l))\<rparr>
                                   else r) rs)"
    using run out by simp
  have b: "fst ` set details \<subseteq> set urls"
    using assms(2) by (rule batch_fetch_urls_details(1))
  have c: "\<forall>l msg. http_get http l = ConnectError msg \<longrightarrow> snd (fetch_markdown http l) = ''''"
    by (simp add: fetch_markdown_def fetch_url_def)
  from a b c show ?thesis by blast
qed

text \<open>The theorem at two results of which the first is selected and fetched.\<close>

theorem fetched_links_get_content_witness:
  "collect_urls (Some 0.7) (Some 6) [page_a, page_b] [] = Inr [''http://a'']
   \<and> batch_fetch_urls http_up [''http://a''] = Inr [(''http://a'', ''page of http://a'')]
   \<and> fetch_details http_up [page_a, page_b] (Some 0.7) (Some 6)
        = Returned [page_a\<lparr>content := Some ''page of http://a''\<rparr>, page_b]"
  using fetched_links_get_content
    [of "Some 0.7" "Some 6" "[page_a, page_b]" "[''http://a'']" http_up
        "[(''http://a'', ''page of http://a'')]"]
  by (simp add: batch_fetch_urls_def fetch_markdown_def fetch_url_def html_to_markdown_def)

text \<open>
  Claim C2 as stated fails: when the fetch of a selected URL fails, the result is not
  left as it is. An absent content becomes the empty string, and a content present
  before the stage is overwritten with the empty string.
\<close>

theorem failed_fetch_overwrites_content:
  "fetch_url http_down ''http://a'' = Inl (Failure ''down'')
   \<and> fetch_url http_down ''http://l'' = Inl (Failure ''down'')
   \<and> fetch_details http_down [page_a, page_long] (Some 0.7) (Some 6)
        = Returned [page_a\<lparr>content := Some ''''\<rparr>, page_long\<lparr>content := Some ''''\<rparr>]
   \<and> content page_a = None \<and> content page_long = Some ''long text''"
  by (simp add: fetch_details_def batch_fetch_urls_def fetch_markdown_def fetch_url_def
        url_content_maps_def)

subsection \<open>List membership across the stages\<close>

lemma rescore_forget: "(rescore relevance qry r)\<lparr>score := None\<rparr> = r\<lparr>score := None\<rparr>"
  by (simp add: rescore_def)

lemma rerank_spec_mset:
  "\<exists>out. rerank_spec relevance rs qry = Returned out
     \<and> mset (map (\<lambda>r. r\<lparr>score := None\<rparr>) out) = mset (map (\<lambda>r. r\<lparr>score := None\<rparr>) rs)"
proof -
  let ?f = "\<lambda>r::result. r\<lparr>score := None\<rparr>"
  let ?scored = "map (rescore relevance qry) rs"
  let ?out = "sort_key (\<lambda>r. case score r of Some s \<Rightarrow> - s | None \<Rightarrow> 0) ?scored"
  have same: "map ?f ?scored = map ?f rs"
    by (induction rs) (simp_all add: rescore_forget)
  have "mset (map ?f ?out) = image_mset ?f (mset ?out)" by simp
  also have "\<dots> = image_mset ?f (mset ?scored)" by simp
  also have "\<dots> = mset (map ?f ?scored)" by (simp only: mset_map)
  also have "\<dots> = mset (map ?f rs)" by (simp only: same)
  finally show ?thesis by (simp add: rerank_spec_def)
qed

text \<open>
  Claim C10. For every input list, a stage that returns a list returns the records
  of its input: ContentFetcher and SemanticFilter return a list of the same length
  whose record at each position is the input's record with at most its content
  changed; the Reranker (as the spec describes it) returns a list of the same length
  holding the input's records, reordered, with at most their scores changed. No
  record is added or removed.
\<close>

theorem stages_keep_the_records:
  "(\<forall>out. fetch_details http rs min_score top_k = Returned out \<longrightarrow>
        length out = length rs \<and> same_but_content rs out)
   \<and> (\<forall>out. filter_content ienv rs qry fms ftk = Returned out \<longrightarrow>
        length out = length rs \<and> same_but_content rs out)
   \<and> (\<exists>out. rerank_spec relevance rs qry = Returned out
        \<and> length out = length rs
        \<and> mset (map (\<lambda>r. r\<lparr>score := None\<rparr>) out) = mset (map (\<lambda>r. r\<lparr>score := None\<rparr>) rs))"
proof -
  have a: "\<forall>out. fetch_details http rs min_score top_k = Returned out \<longrightarrow>
        length out = length rs \<and> same_but_content rs out"
  proof (intro allI impI)
    fix out assume "fetch_details http rs min_score top_k = Returned out"
    with fetch_details_state [of rs http min_score top_k]
    have "same_but_content rs out" by simp
    then show "length out = length rs \<and> same_but_content rs out"
      by (simp add: same_but_content_length)
  qed
  have b: "\<forall>out. filter_content ienv rs qry fms ftk = Returned out \<longrightarrow>
        length out = length rs \<and> same_but_content rs out"
  proof (intro allI impI)
    fix out assume "filter_content ienv rs qry fms ftk = Returned out"
    with filter_content_state [of rs ienv qry fms ftk]
    have "same_but_content rs out" by simp
    then show "length out = length rs \<and> same_but_content rs out"
      by (simp add: same_but_content_length)
  qed
  from rerank_spec_mset [of relevance rs qry] obtain out
    where out: "rerank_spec relevance rs qry = Returned out"
      "mset (map (\<lambda>r. r\<lparr>score := None\<rparr>) out) = mset (map (\<lambda>r. r\<lparr>score := None\<rparr>) rs)"
    by blast
  from out(2) have "size (mset (map (\<lambda>r. r\<lparr>score := None\<rparr>) out))
      = size (mset (map (\<lambda>r. r\<lparr>score := None\<rparr>) rs))" by simp
  then have "length out = length rs" by simp
  with out have c: "\<exists>out. rerank_spec relevance rs qry = Returned out
        \<and> length out = length rs
        \<and> mset (map (\<lambda>r. r\<lparr>score := None\<rparr>) out) = mset (map (\<lambda>r. r\<lparr>score := None\<rparr>) rs)"
    by blast
  from a b c show ?thesis by blast
qed

text \<open>The theorem at lists on which each of the three stages returns.\<close>

theorem stages_keep_the_records_witness:
  "fetch_details http_up [page_a, page_b] (Some 0.7) (Some 6)
      = Returned [page_a\<lparr>content := Some ''page of http://a''\<rparr>, page_b]
   \<and> same_but_content [page_a, page_b] [page_a\<lparr>content := Some ''page of http://a''\<rparr>, page_b]
   \<and> filter_content one_match_env [page_long, page_c] ''rust'' (Some 0.8) (Some 6)
      = Returned [page_long\<lparr>content := Some ''''\<rparr>, page_c]
   \<and> same_but_content [page_long, page_c] [page_long\<lparr>content := Some ''''\<rparr>, page_c]
   \<and> rerank_spec prefers_b [page_a, page_b] ''rust''
      = Returned [page_b\<lparr>score := Some 0.9\<rparr>, page_a\<lparr>score := Some 0.1\<rparr>]"
  using stages_keep_the_records [where http = http_up and rs = "[page_a, page_b]"
      and min_score = "Some 0.7" and top_k = "Some 6" and ienv = one_match_env
      and qry = "''rust''" and fms = "Some 0.8" and ftk = "Some 6" and relevance = prefers_b]
    stages_keep_the_records [where http = http_up and rs = "[page_long, page_c]"
      and min_score = "Some 0.7" and top_k = "Some 6" and ienv = one_match_env
      and qry = "''rust''" and fms = "Some 0.8" and ftk = "Some 6" and relevance = prefers_b]
  by (simp add: fetch_details_def batch_fetch_urls_def fetch_markdown_def fetch_url_def
        html_to_markdown_def url_content_maps_def filter_content_def store_results_def
        build_document_def Let_def uuid_content_maps_def add_match_def
        same_but_content_def rerank_spec_def rescore_def)

subsection \<open>The uuid key across the pipeline\<close>

lemma rescore_uuid: "uuid (rescore relevance qry r) = uuid r"
  by (simp add: rescore_def)

lemma rerank_spec_uuid:
  "\<exists>out. rerank_spec relevance rs qry = Returned out \<and> mset (map uuid out) = mset (map uuid rs)"
proof -
  let ?scored = "map (rescore relevance qry) rs"
  let ?out = "sort_key (\<lambda>r. case score r of Some s \<Rightarrow> - s | None \<Rightarrow> 0) ?scored"
  have same: "map uuid ?scored = map uuid rs"
    by (induction rs) (simp_all add: rescore_uuid)
  have "mset (map uuid ?out) = image_mset uuid (mset ?out)" by simp
  also have "\<dots> = image_mset uuid (mset ?scored)" by simp
  also have "\<dots> = mset (map uuid ?scored)" by (simp only: mset_map)
  also have "\<dots> = mset (map uuid rs)" by (simp only: same)
  finally show ?thesis by (simp add: rerank_spec_def)
qed

lemma rerank_step_uuid:
  "mset (map uuid (fst (rerank_step (rerank_spec relevance) req rs))) = mset (map uuid rs)"
proof (cases "truthy (is_reranking req)")
  case True
  from rerank_spec_uuid [of relevance rs "query req"] obtain out
    where "rerank_spec relevance rs (query req) = Returned out"
      and "mset (map uuid out) = mset (map uuid rs)" by blast
  with True show ?thesis by (simp add: rerank_step_def)
next
  case False
  then show ?thesis by (simp add: rerank_step_def)
qed

lemma detail_step_uuid: "map uuid (fst (detail_step http req rs)) = map uuid rs"
  by (simp add: detail_step_def same_but_content_uuid [OF fetch_details_state])

lemma filter_step_uuid: "map uuid (fst (filter_step ienv req rs)) = map uuid rs"
  by (simp add: filter_step_def same_but_content_uuid [OF filter_content_state])

lemma pipeline_uuid:
  assumes "Some (api_key authorization) = auth_api_key" and "query req \<noteq> ''''"
      and "search get_search_results (query req) (search_n req) (locale_field req) = Inr found"
  shows "\<exists>out trace params.
           rag_search auth_api_key get_search_results (rerank_spec relevance) http ienv req
             authorization = (resp_data out, trace)
         \<and> get_search_results params = Inr found
         \<and> mset (map uuid out) = mset (map uuid found)"
proof -
  let ?rs1 = "fst (rerank_step (rerank_spec relevance) req found)"
  let ?rs2 = "fst (detail_step http req ?rs1)"
  let ?rs3 = "fst (filter_step ienv req ?rs2)"
  have run: "fst (rag_search auth_api_key get_search_results (rerank_spec relevance) http ienv req
             authorization) = resp_data ?rs3"
    using assms by (simp add: rag_search_def split: prod.splits)
  have "map uuid ?rs3 = map uuid ?rs2" by (rule filter_step_uuid)
  also have "\<dots> = map uuid ?rs1" by (rule detail_step_uuid)
  finally have "mset (map uuid ?rs3) = mset (map uuid ?rs1)" by simp
  also have "\<dots> = mset (map uuid found)" by (rule rerank_step_uuid)
  finally have keys: "mset (map uuid ?rs3) = mset (map uuid found)" .
  from assms(3) have prov: "\<exists>params. get_search_results params = Inr found"
    by (auto simp: search_def)
  from run keys prov show ?thesis
    by (metis prod.collapse)
qed

lemma build_document_uuid:
  "build_document hash r = Inr (Some d) \<Longrightarrow> link r = Some l \<Longrightarrow>
     meta_uuid d = (case uuid r of Some u \<Rightarrow> u | None \<Rightarrow> hash l) \<and> doc_id d = meta_uuid d"
  by (auto simp: build_document_def Let_def split: option.splits if_splits)

text \<open>
  Claim C5. No stage of the pipeline writes the uuid key of a result. ContentFetcher
  and SemanticFilter leave the uuid of every record as it was, whether they return
  or raise; the Reranker (as the spec describes it) returns the records with the
  uuids they had; \<^verbatim>\<open>build_document\<close> puts the md5 of the link of a result without
  uuid into the document only; and \<^verbatim>\<open>search\<close> hands on the list of the search
  provider as it is. So the uuid keys of the list that reaches the filter, and of
  the response, are those of the records the provider created, and a result without
  uuid reaches the filter without one. Hence, when the selection, the indexing and
  the query of the filter succeed with at least one match and some result of the
  input has no uuid key, the merge-back raises \<^verbatim>\<open>KeyError('uuid')\<close>; the list is then
  left with the same records, of which those before the failing one may have their
  content overwritten already.
\<close>

theorem merge_back_key_error:
  "(\<exists>out. rerank_spec relevance rs qry = Returned out \<and> mset (map uuid out) = mset (map uuid rs))
   \<and> map uuid (after_stage (fetch_details http rs dms dtk)) = map uuid rs
   \<and> map uuid (after_stage (filter_content ienv rs qry fms ftk)) = map uuid rs
   \<and> (build_document (md5 ienv) r = Inr (Some d) \<and> link r = Some l \<and> uuid r = None
        \<longrightarrow> meta_uuid d = md5 ienv l \<and> doc_id d = md5 ienv l)
   \<and> mset (map uuid (fst (detail_step http req
              (fst (rerank_step (rerank_spec relevance) req rs))))) = mset (map uuid rs)
   \<and> ((\<exists>r \<in> set rs. uuid r = None)
        \<longrightarrow> (\<exists>r \<in> set (fst (detail_step http req
                         (fst (rerank_step (rerank_spec relevance) req rs)))). uuid r = None))
   \<and> (Some (api_key authorization) = auth_api_key \<and> query req \<noteq> ''''
        \<and> search get_search_results (query req) (search_n req) (locale_field req) = Inr found
        \<longrightarrow> (\<exists>out trace params.
               rag_search auth_api_key get_search_results (rerank_spec relevance) http ienv req
                 authorization = (resp_data out, trace)
             \<and> get_search_results params = Inr found
             \<and> mset (map uuid out) = mset (map uuid found)))
   \<and> (results_with_content rs = Inr selected \<and> store_results ienv selected = Inr index
        \<and> query_results ienv index qry fms ftk = Inr matches \<and> matches \<noteq> []
        \<and> (\<exists>r \<in> set rs. uuid r = None)
        \<longrightarrow> (\<exists>st. filter_content ienv rs qry fms ftk = Raised (KeyError ''uuid'') st
               \<and> same_but_content rs st))"
proof -
  have r: "\<exists>out. rerank_spec relevance rs qry = Returned out
      \<and> mset (map uuid out) = mset (map uuid rs)"
    by (rule rerank_spec_uuid)
  have a: "map uuid (after_stage (fetch_details http rs dms dtk)) = map uuid rs"
    by (rule same_but_content_uuid) (rule fetch_details_state)
  have b: "map uuid (after_stage (filter_content ienv rs qry fms ftk)) = map uuid rs"
    by (rule same_but_content_uuid) (rule filter_content_state)
  have c: "build_document (md5 ienv) r = Inr (Some d) \<and> link r = Some l \<and> uuid r = None
        \<longrightarrow> meta_uuid d = md5 ienv l \<and> doc_id d = md5 ienv l"
    using build_document_uuid [of "md5 ienv" r d l] by auto
  have p: "mset (map uuid (fst (detail_step http req
              (fst (rerank_step (rerank_spec relevance) req rs))))) = mset (map uuid rs)"
    by (simp only: detail_step_uuid rerank_step_uuid)
  have q: "(\<exists>r \<in> set rs. uuid r = None)
        \<longrightarrow> (\<exists>r \<in> set (fst (detail_step http req
                         (fst (rerank_step (rerank_spec relevance) req rs)))). uuid r = None)"
  proof
    assume "\<exists>r \<in> set rs. uuid r = None"
    then have "None \<in> set (map uuid rs)" by force
    also from p have "set (map uuid rs) = set (map uuid (fst (detail_step http req
                         (fst (rerank_step (rerank_spec relevance) req rs)))))"
      by (metis mset_eq_setD)
    finally show "\<exists>r \<in> set (fst (detail_step http req
                         (fst (rerank_step (rerank_spec relevance) req rs)))). uuid r = None"
      by force
  qed
  have e: "Some (api_key authorization) = auth_api_key \<and> query req \<noteq> ''''
        \<and> search get_search_results (query req) (search_n req) (locale_field req) = Inr found
        \<longrightarrow> (\<exists>out trace params.
               rag_search auth_api_key get_search_results (rerank_spec relevance) http ienv req
                 authorization = (resp_data out, trace)
             \<and> get_search_results params = Inr found
             \<and> mset (map uuid out) = mset (map uuid found))"
    using pipeline_uuid by blast
  have d: "results_with_content rs = Inr selected \<and> store_results ienv selected = Inr index
        \<and> query_results ienv index qry fms ftk = Inr matches \<and> matches \<noteq> []
        \<and> (\<exists>r \<in> set rs. uuid r = None)
        \<longrightarrow> (\<exists>st. filter_content ienv rs qry fms ftk = Raised (KeyError ''uuid'') st
               \<and> same_but_content rs st)"
  proof (intro impI, elim conjE)
    assume sel: "results_with_content rs = Inr selected"
       and idx: "store_results ienv selected = Inr index"
       and qr: "query_results ienv index qry fms ftk = Inr matches"
       and nouuid: "\<exists>r \<in> set rs. uuid r = None"
    from merge_back_raises [OF nouuid, of "uuid_content_maps matches"] obtain st
      where st: "merge_back (uuid_content_maps matches) rs = Raised (KeyError ''uuid'') st"
      by blast
    from sel idx qr st
    have run: "filter_content ienv rs qry fms ftk = Raised (KeyError ''uuid'') st"
      by (simp add: filter_content_def)
    with filter_content_state [of rs ienv qry fms ftk]
    have "same_but_content rs st" by simp
    with run show "\<exists>st. filter_content ienv rs qry fms ftk = Raised (KeyError ''uuid'') st
               \<and> same_but_content rs st" by blast
  qed
  from r a b c p q e d show ?thesis by blast
qed

text \<open>
  The theorem at a list whose first result has a uuid and a match and whose second
  result has no uuid: the first result has been overwritten when the stage aborts.
  The request with all three stages shows the uuid keys of the provider's records in
  the response.
\<close>

theorem merge_back_key_error_witness:
  "results_with_content [page_long, page_a] = Inr [page_long]
   \<and> store_results one_match_env [page_long] = Inr ()
   \<and> query_results one_match_env () ''rust'' (Some 0.8) (Some 6)
        = Inr [\<lparr>match_uuid = ''a'', match_content = ''x''\<rparr>]
   \<and> uuid page_a = None
   \<and> filter_content one_match_env [page_long, page_a] ''rust'' (Some 0.8) (Some 6)
        = Raised (KeyError ''uuid'') [page_long\<lparr>content := Some ''''\<rparr>, page_a]
   \<and> build_document id page_a
        = Inr (Some \<lparr>doc_text = ''sa'', meta_uuid = ''http://a'', meta_title = ''A'',
                     meta_snippet = ''sa'', meta_link = ''http://a'', doc_id = ''http://a''\<rparr>)
   \<and> rag_search (Some ''k'') (\<lambda>params. Inr [page_u, page_b]) (rerank_spec prefers_b) http_up
        one_match_env all_stages_req (Some ''Bearer k'')
       = (resp_data [page_b\<lparr>score := Some 0.9, content := Some ''page of http://b''\<rparr>,
                     page_u\<lparr>score := Some 0.1\<rparr>],
          [Retriever, Reranker, ContentFetcher, SemanticFilter])"
  using merge_back_key_error [where ienv = one_match_env and rs = "[page_long, page_a]"
      and qry = "''rust''" and fms = "Some 0.8" and ftk = "Some 6" and selected = "[page_long]"
      and index = "()" and matches = "[\<lparr>match_uuid = ''a'', match_content = ''x''\<rparr>]"
      and r = page_a and l = "''http://a''" and http = http_up and dms = "Some 0.7"
      and dtk = "Some 6" and relevance = prefers_b and req = all_stages_req
      and authorization = "Some ''Bearer k''" and auth_api_key = "Some ''k''"
      and get_search_results = "\<lambda>params. Inr [page_u, page_b]" and found = "[page_u, page_b]"
      and d = "\<lparr>doc_text = ''sa'', meta_uuid = ''http://a'', meta_title = ''A'',
                     meta_snippet = ''sa'', meta_link = ''http://a'', doc_id = ''http://a''\<rparr>"]
  by (simp add: rag_search_def api_key_def search_def truthy_def rerank_step_def
        detail_step_def filter_step_def fetch_details_def batch_fetch_urls_def
        fetch_markdown_def fetch_url_def html_to_markdown_def url_content_maps_def
        filter_content_def store_results_def build_document_def Let_def
        uuid_content_maps_def add_match_def rerank_spec_def rescore_def)

subsection \<open>Failure of an optional stage\<close>

lemma fetch_details_Raised:
  "fetch_details http rs ms tk = Raised e st \<Longrightarrow> e \<noteq> KeyError ''link'' \<Longrightarrow> st = rs"
proof -
  assume run: "fetch_details http rs ms tk = Raised e st" and e: "e \<noteq> KeyError ''link''"
  have merge: "merge_details cm xs = Raised e' st' \<Longrightarrow> e' = KeyError ''link''" for cm xs e' st'
    by (induction xs arbitrary: st') (auto simp: push_eq_Raised split: option.splits)
  from run e show "st = rs"
    by (auto simp: fetch_details_def split: sum.splits dest: merge)
qed

lemma filter_content_Raised:
  "filter_content ienv rs qry fms ftk = Raised e st \<Longrightarrow> e \<noteq> KeyError ''uuid'' \<Longrightarrow> st = rs"
proof -
  assume run: "filter_content ienv rs qry fms ftk = Raised e st" and e: "e \<noteq> KeyError ''uuid''"
  have merge: "merge_back cm xs = Raised e' st' \<Longrightarrow> e' = KeyError ''uuid''" for cm xs e' st'
    by (induction xs arbitrary: st') (auto simp: push_eq_Raised split: option.splits)
  from run e show "st = rs"
    by (auto simp: filter_content_def split: sum.splits dest: merge)
qed

lemma rag_search_succeeds:
  assumes "Some (api_key authorization) = auth_api_key" and "query req \<noteq> ''''"
      and "search get_search_results (query req) (search_n req) (locale_field req) = Inr found"
  shows "\<exists>out trace. rag_search auth_api_key get_search_results rerank http ienv req authorization
           = (resp_data out, Retriever # trace)"
  using assms by (simp add: rag_search_def split: prod.splits)

text \<open>
  Claim C3 (amended). When an optional stage raises, the orchestrator goes on with
  its own list, in the state in which the stage left it, and an authenticated
  request with a non-empty query whose search succeeded gets a data response
  whatever the optional stages do. For ContentFetcher and SemanticFilter that state
  holds the records of the stage's input in the same order, equal in every field but
  content, and it is exactly the input unless the exception is the
  \<^verbatim>\<open>KeyError\<close> of the key the merge loop reads (\<^verbatim>\<open>link\<close>, respectively \<^verbatim>\<open>uuid\<close>).
\<close>

theorem failed_stage_is_skipped:
  "(truthy (is_reranking req) \<and> rerank rs (query req) = Raised e_rerank st_rerank
      \<longrightarrow> rerank_step rerank req rs = (st_rerank, [Reranker]))
   \<and> (truthy (is_detail req)
        \<and> fetch_details http rs (detail_min_score req) (detail_top_k req) = Raised e_fetch st_fetch
      \<longrightarrow> detail_step http req rs = (st_fetch, [ContentFetcher]) \<and> same_but_content rs st_fetch
          \<and> (e_fetch \<noteq> KeyError ''link'' \<longrightarrow> st_fetch = rs))
   \<and> (truthy (is_filter req)
        \<and> filter_content ienv rs (query req) (filter_min_score req) (filter_top_k req)
            = Raised e_filter st_filter
      \<longrightarrow> filter_step ienv req rs = (st_filter, [SemanticFilter]) \<and> same_but_content rs st_filter
          \<and> (e_filter \<noteq> KeyError ''uuid'' \<longrightarrow> st_filter = rs))
   \<and> (Some (api_key authorization) = auth_api_key \<and> query req \<noteq> ''''
        \<and> search get_search_results (query req) (search_n req) (locale_field req) = Inr found
      \<longrightarrow> (\<exists>out trace.
            rag_search auth_api_key get_search_results rerank http ienv req authorization
              = (resp_data out, Retriever # trace)))"
proof -
  have a: "truthy (is_reranking req) \<and> rerank rs (query req) = Raised e_rerank st_rerank
      \<longrightarrow> rerank_step rerank req rs = (st_rerank, [Reranker])"
    by (simp add: rerank_step_def)
  have b: "truthy (is_detail req)
        \<and> fetch_details http rs (detail_min_score req) (detail_top_k req) = Raised e_fetch st_fetch
      \<longrightarrow> detail_step http req rs = (st_fetch, [ContentFetcher]) \<and> same_but_content rs st_fetch
          \<and> (e_fetch \<noteq> KeyError ''link'' \<longrightarrow> st_fetch = rs)"
  proof (intro impI, elim conjE)
    assume flag: "truthy (is_detail req)"
       and run: "fetch_details http rs (detail_min_score req) (detail_top_k req) = Raised e_fetch st_fetch"
    from flag run have "detail_step http req rs = (st_fetch, [ContentFetcher])"
      by (simp add: detail_step_def)
    moreover from run fetch_details_state [of rs http "detail_min_score req" "detail_top_k req"]
    have "same_but_content rs st_fetch" by simp
    moreover from run have "e_fetch \<noteq> KeyError ''link'' \<longrightarrow> st_fetch = rs"
      by (auto dest: fetch_details_Raised)
    ultimately show "detail_step http req rs = (st_fetch, [ContentFetcher]) \<and> same_but_content rs st_fetch
          \<and> (e_fetch \<noteq> KeyError ''link'' \<longrightarrow> st_fetch = rs)" by blast
  qed
  have c: "truthy (is_filter req)
        \<and> filter_content ienv rs (query req) (filter_min_score req) (filter_top_k req)
            = Raised e_filter st_filter
      \<longrightarrow> filter_step ienv req rs = (st_filter, [SemanticFilter]) \<and> same_but_content rs st_filter
          \<and> (e_filter \<noteq> KeyError ''uuid'' \<longrightarrow> st_filter = rs)"
  proof (intro impI, elim conjE)
    assume flag: "truthy (is_filter req)"
       and run: "filter_content ienv rs (query req) (filter_min_score req) (filter_top_k req)
            = Raised e_filter st_filter"
    from flag run have "filter_step ienv req rs = (st_filter, [SemanticFilter])"
      by (simp add: filter_step_def)
    moreover from run
      filter_content_state [of rs ienv "query req" "filter_min_score req" "filter_top_k req"]
    have "same_but_content rs st_filter" by simp
    moreover from run have "e_filter \<noteq> KeyError ''uuid'' \<longrightarrow> st_filter = rs"
      by (auto dest: filter_content_Raised)
    ultimately show "filter_step ienv req rs = (st_filter, [SemanticFilter]) \<and> same_but_content rs st_filter
          \<and> (e_filter \<noteq> KeyError ''uuid'' \<longrightarrow> st_filter = rs)" by blast
  qed
  have d: "Some (api_key authorization) = auth_api_key \<and> query req \<noteq> ''''
        \<and> search get_search_results (query req) (search_n req) (locale_field req) = Inr found
      \<longrightarrow> (\<exists>out trace.
            rag_search auth_api_key get_search_results rerank http ienv req authorization
              = (resp_data out, Retriever # trace))"
    using rag_search_succeeds by blast
  from a b c d show ?thesis by blast
qed

text \<open>The theorem at a request for which all three optional stages raise.\<close>

theorem failed_stage_is_skipped_witness:
  "rerank_down [page_long, page_b] ''rust'' = Raised (Failure ''model down'') [page_long, page_b]
   \<and> fetch_details http_no_session [page_long, page_b] (Some 0.7) (Some 6)
       = Raised (Failure ''no session'') [page_long, page_b]
   \<and> filter_content store_down_env [page_long, page_b] ''rust'' (Some 0.8) (Some 6)
       = Raised (Failure ''store down'') [page_long, page_b]
   \<and> rag_search (Some ''k'') (\<lambda>params. Inr [page_long, page_b]) rerank_down http_no_session
        store_down_env all_stages_req (Some ''Bearer k'')
       = (resp_data [page_long, page_b], [Retriever, Reranker, ContentFetcher, SemanticFilter])"
  using failed_stage_is_skipped [where req = all_stages_req and rerank = rerank_down
      and rs = "[page_long, page_b]" and http = http_no_session and ienv = store_down_env
      and e_rerank = "Failure ''model down''" and st_rerank = "[page_long, page_b]"
      and e_fetch = "Failure ''no session''" and st_fetch = "[page_long, page_b]"
      and e_filter = "Failure ''store down''" and st_filter = "[page_long, page_b]"
      and authorization = "Some ''Bearer k''" and auth_api_key = "Some ''k''"
      and get_search_results = "\<lambda>params. Inr [page_long, page_b]"
      and found = "[page_long, page_b]"]
  by (simp add: rag_search_def api_key_def search_def truthy_def rerank_step_def
        detail_step_def filter_step_def fetch_details_def batch_fetch_urls_def
        filter_content_def store_results_def build_document_def Let_def)

text \<open>
  Claim C3 as stated fails: a SemanticFilter that raises in its merge-back loop has
  already overwritten the content of an earlier result, and the response carries
  that list, not the list the stage received.
\<close>

theorem failed_filter_keeps_its_writes:
  "fetch_details http_up [page_u, page_a] (Some 0.7) (Some 6)
       = Returned [page_u\<lparr>content := Some ''page of http://u''\<rparr>,
                   page_a\<lparr>content := Some ''page of http://a''\<rparr>]
   \<and> filter_content one_match_env
        [page_u\<lparr>content := Some ''page of http://u''\<rparr>,
         page_a\<lparr>content := Some ''page of http://a''\<rparr>] ''rust'' (Some 0.8) (Some 6)
       = Raised (KeyError ''uuid'')
           [page_u\<lparr>content := Some ''''\<rparr>, page_a\<lparr>content := Some ''page of http://a''\<rparr>]
   \<and> rag_search (Some ''k'') (\<lambda>params. Inr [page_u, page_a]) keep_order http_up one_match_env
        (default_req\<lparr>is_detail := Some True, is_filter := Some True\<rparr>) (Some ''Bearer k'')
       = (resp_data [page_u\<lparr>content := Some ''''\<rparr>,
                     page_a\<lparr>content := Some ''page of http://a''\<rparr>],
          [Retriever, ContentFetcher, SemanticFilter])
   \<and> [page_u\<lparr>content := Some ''''\<rparr>, page_a\<lparr>content := Some ''page of http://a''\<rparr>]
       \<noteq> [page_u\<lparr>content := Some ''page of http://u''\<rparr>,
           page_a\<lparr>content := Some ''page of http://a''\<rparr>]"
  by (simp add: rag_search_def api_key_def search_def truthy_def rerank_step_def
        detail_step_def filter_step_def fetch_details_def batch_fetch_urls_def
        fetch_markdown_def fetch_url_def html_to_markdown_def url_content_maps_def
        filter_content_def store_results_def build_document_def Let_def
        uuid_content_maps_def add_match_def)

end
